theory Spec2Isabelle
  imports
    Complex_Main
    "HOL-Library.Char_ord"
    "HOL-Library.List_Lexorder"
    "HOL-Library.Product_Lexorder"
begin

unbundle bit_operations_syntax

section \<open>Data model of \<open>engine/processor.py\<close> and \<open>engine/report.py\<close>\<close>

text \<open>
  A pandas DataFrame is a list of rows, a row is a record of its columns, and a missing
  value (\<open>pd.NA\<close>, \<open>NaN\<close>) is \<open>None\<close>. Unsigned integer columns are natural numbers, with
  the wrap-around of a narrowing cast written out as \<open>mod 2 ^ w\<close>. A \<open>float64\<close> amount is
  the real number it denotes: comparisons are exact on that number, rounding of sums is
  not modelled, and a missing amount is outside the model. Characters are code units in
  which the decimal digits are \<open>0\<close> to \<open>9\<close>. A function whose Python name starts with
  an underscore is written without it.

  Column names are those of the source. Where two tables carry a column of the same name,
  the aggregated table's copy is prefixed \<open>agg_\<close> and the customer master's \<open>cust_\<close>.
\<close>

datatype error = ValueError | AssertionError | KeyError

record line_item =
  Currency :: string
  Company_Code :: string
  GL_Account :: nat
  Year :: nat
  Period :: nat
  Document_Type :: string
  Offsetting_Account :: nat
  Offsetting_Account_Type :: string
  LC_Amount :: real
  Text :: "string option"

record compacted_item = line_item +
  Customer_Number :: "nat option"

section \<open>String helpers\<close>

definition is_digit :: "char \<Rightarrow> bool" where
  "is_digit c = (c \<in> set ''0123456789'')"

definition digit_val :: "char \<Rightarrow> nat" where
  "digit_val c = of_char c - 48"

definition nat_of_digits :: "string \<Rightarrow> nat" where
  "nat_of_digits s = foldl (\<lambda>a c. 10 * a + digit_val c) 0 s"

text \<open>\<open>str.replace(old, new)\<close> for a one-character \<open>old\<close>, \<open>regex = False\<close>.\<close>

definition str_replace :: "char \<Rightarrow> string \<Rightarrow> string \<Rightarrow> string" where
  "str_replace old new s = concat (map (\<lambda>c. if c = old then new else [c]) s)"

definition endswith :: "string \<Rightarrow> string \<Rightarrow> bool" where
  "endswith s suffix =
     (length suffix \<le> length s \<and> drop (length s - length suffix) s = suffix)"

section \<open>\<open>_parse_amounts\<close>\<close>

text \<open>
  \<open>pd.to_numeric\<close> on the decimal literals that the text conversion produces: an optional
  sign, digits with at most one \<open>.\<close>, and at least one digit. \<open>None\<close> stands for a string
  that is no such literal.
\<close>

definition unsigned_decimal :: "string \<Rightarrow> real option" where
  "unsigned_decimal s =
     (let ip = takeWhile (\<lambda>c. c \<noteq> CHR ''.'') s;
          r = dropWhile (\<lambda>c. c \<noteq> CHR ''.'') s;
          fp = (if r = [] then [] else tl r)
      in if list_all is_digit ip \<and> list_all is_digit fp \<and> ip @ fp \<noteq> []
         then Some (real (nat_of_digits (ip @ fp)) / 10 ^ length fp)
         else None)"

definition to_numeric :: "string \<Rightarrow> real option" where
  "to_numeric s =
     (case s of
        [] \<Rightarrow> None
      | c # t \<Rightarrow>
          if c = CHR ''-'' then map_option uminus (unsigned_decimal t)
          else if c = CHR ''+'' then unsigned_decimal t
          else unsigned_decimal s)"

text \<open>The three string steps of \<open>_parse_amounts\<close> on one value of the Series.\<close>

definition parse_amounts_text :: "string \<Rightarrow> string" where
  "parse_amounts_text v =
     (let parsed = str_replace (CHR '','') ''.'' (str_replace (CHR ''.'') '''' v)
      in if endswith parsed ''-'' then ''-'' @ str_replace (CHR ''-'') '''' parsed
         else parsed)"

definition parse_amount :: "string \<Rightarrow> real option" where
  "parse_amount v = to_numeric (parse_amounts_text v)"

definition parse_amounts :: "string list \<Rightarrow> real option list" where
  "parse_amounts vals = map parse_amount vals"

text \<open>
  The conversion in the words of the specification: remove all \<open>.\<close>, replace \<open>,\<close> with
  \<open>.\<close>, then if the result ends with \<open>-\<close>, strip the trailing \<open>-\<close> and negate.
\<close>

definition spec_parse_amount :: "string \<Rightarrow> real option" where
  "spec_parse_amount v =
     (let r = str_replace (CHR '','') ''.'' (str_replace (CHR ''.'') '''' v)
      in if endswith r ''-'' then map_option uminus (to_numeric (butlast r))
         else to_numeric r)"

text \<open>
  An amount in the SAP format: digits, \<open>.\<close> as thousands separator and \<open>,\<close> as decimal
  separator, with an optional trailing \<open>-\<close>.
\<close>

definition sap_body :: "string \<Rightarrow> string" where
  "sap_body v = (if endswith v ''-'' then butlast v else v)"

definition sap_char :: "char \<Rightarrow> bool" where
  "sap_char c = (is_digit c \<or> c = CHR ''.'' \<or> c = CHR '','')"

definition sap_format :: "string \<Rightarrow> bool" where
  "sap_format v = list_all sap_char (sap_body v)"

section \<open>\<open>compact_data\<close>\<close>

text \<open>
  The pattern \<open>\D+([1,4]\d{6})(?!\d)\<close>. \<open>group_at\<close> matches the group and the lookahead
  at the head of a suffix; \<open>match_backtrack\<close> gives \<open>\D+\<close> its \<open>k\<close> characters, longest
  first; \<open>findall\<close> scans for non-overlapping matches from the left and returns the
  groups.
\<close>

definition class_1_comma_4 :: "char \<Rightarrow> bool" where
  "class_1_comma_4 c = (c = CHR ''1'' \<or> c = CHR '','' \<or> c = CHR ''4'')"

definition group_at :: "string \<Rightarrow> string option" where
  "group_at cs =
     (let g = take 7 cs; r = drop 7 cs
      in if length g = 7 \<and> class_1_comma_4 (hd g) \<and> list_all is_digit (tl g)
            \<and> (case r of [] \<Rightarrow> True | c # _ \<Rightarrow> \<not> is_digit c)
         then Some g else None)"

fun match_backtrack :: "string \<Rightarrow> nat \<Rightarrow> (string \<times> string) option" where
  "match_backtrack cs 0 = None"
| "match_backtrack cs (Suc k) =
     (case group_at (drop (Suc k) cs) of
        Some g \<Rightarrow> Some (g, drop (Suc k + 7) cs)
      | None \<Rightarrow> match_backtrack cs k)"

definition match_at :: "string \<Rightarrow> (string \<times> string) option" where
  "match_at cs = match_backtrack cs (length (takeWhile (\<lambda>c. \<not> is_digit c) cs))"

lemma group_at_length: "group_at cs = Some g \<Longrightarrow> 7 \<le> length cs"
  by (auto simp: group_at_def Let_def split: if_splits)

lemma match_backtrack_shorter:
  "match_backtrack cs k = Some (g, rest) \<Longrightarrow> length rest < length cs"
proof (induction k)
  case 0
  then show ?case by simp
next
  case (Suc k)
  show ?case
  proof (cases "group_at (drop (Suc k) cs)")
    case None
    with Suc show ?thesis by simp
  next
    case (Some g')
    from group_at_length [OF Some] have "7 \<le> length cs - Suc k" by simp
    moreover from Suc.prems Some have "rest = drop (Suc k + 7) cs" by simp
    ultimately show ?thesis by simp
  qed
qed

lemma match_at_shorter: "match_at cs = Some (g, rest) \<Longrightarrow> length rest < length cs"
  unfolding match_at_def by (rule match_backtrack_shorter)

function findall :: "string \<Rightarrow> string list" where
  "findall [] = []"
| "findall (c # cs) =
     (case match_at (c # cs) of
        Some (g, rest) \<Rightarrow> g # findall rest
      | None \<Rightarrow> findall cs)"
  by pat_completeness auto
termination
proof (relation "measure length")
  show "wf (measure length)" by simp
next
  fix c cs x2 g rest
  assume "match_at (c # cs) = Some x2" "(g, rest) = x2"
  then have "match_at (c # cs) = Some (g, rest)" by simp
  from match_at_shorter [OF this] show "(rest, c # cs) \<in> measure length" by simp
next
  fix c cs
  show "(cs, c # cs) \<in> measure length" by simp
qed

text \<open>
  \<open>np.uint64\<close> applied to a captured group: a string of digits converts to its value,
  any other string raises \<open>ValueError\<close>.
\<close>

definition np_uint64 :: "string \<Rightarrow> error + nat" where
  "np_uint64 s =
     (if s \<noteq> [] \<and> list_all is_digit s then Inr (nat_of_digits s mod 2 ^ 64)
      else Inl ValueError)"

text \<open>
  \<open>Text.str.findall(...)\<close> followed by
  \<open>lambda x: np.uint64(x[0]) if len(x) >= 1 else pd.NA\<close>.
\<close>

definition extract_customer_number :: "string \<Rightarrow> error + nat option" where
  "extract_customer_number text =
     (let x = findall text
      in if length x \<ge> 1
         then (case np_uint64 (x ! 0) of Inl e \<Rightarrow> Inl e | Inr v \<Rightarrow> Inr (Some v))
         else Inr None)"

text \<open>
  The mask \<open>data["Offsetting_Account"] != 48505240 & data["Customer_Number"].isna()\<close>.
  In Python \<open>&\<close> binds tighter than \<open>!=\<close>: the integer is and-ed bitwise with the boolean
  \<open>isna()\<close>, the result of that logical operation is cast to bool, and the account is
  compared with it (\<open>False\<close> is 0, \<open>True\<close> is 1).
\<close>

definition missing_cust_acc :: "nat \<Rightarrow> nat option \<Rightarrow> bool" where
  "missing_cust_acc offsetting_account customer_number =
     (offsetting_account \<noteq>
        of_bool ((48505240 :: nat) AND of_bool (customer_number = None) \<noteq> 0))"

text \<open>One row through the steps after the concatenation.\<close>

definition compact_row :: "line_item \<Rightarrow> error + compacted_item" where
  "compact_row r =
     (let text = (case Text r of None \<Rightarrow> '''' | Some t \<Rightarrow> t)
      in case extract_customer_number text of
           Inl e \<Rightarrow> Inl e
         | Inr extracted \<Rightarrow>
             (let filled = (if missing_cust_acc (Offsetting_Account r) extracted
                            then Some (Offsetting_Account r) else extracted);
                  cast = map_option (\<lambda>v. v mod 2 ^ 32) filled
              in Inr (line_item.extend (r\<lparr>Text := Some text\<rparr>)
                        (compacted_item.fields cast))))"

text \<open>A column operation raises as soon as one row does.\<close>

fun map_rows :: "('a \<Rightarrow> error + 'b) \<Rightarrow> 'a list \<Rightarrow> error + 'b list" where
  "map_rows f [] = Inr []"
| "map_rows f (x # xs) =
     (case f x of
        Inl e \<Rightarrow> Inl e
      | Inr y \<Rightarrow> (case map_rows f xs of Inl e \<Rightarrow> Inl e | Inr ys \<Rightarrow> Inr (y # ys)))"

definition compact_data :: "line_item list list \<Rightarrow> error + compacted_item list" where
  "compact_data converted =
     (if length converted = 0 then Inl ValueError
      else map_rows compact_row (concat converted))"

section \<open>\<open>_aggregate_data\<close>\<close>

text \<open>
  \<open>pd.cut(x, bins, right = True, labels)\<close>: the label of the first interval
  \<open>(lo, hi]\<close> of consecutive bin edges that holds the value, and no label (\<open>NaN\<close>) for a
  value in none of them.
\<close>

fun pd_cut :: "real list \<Rightarrow> string list \<Rightarrow> real \<Rightarrow> string option" where
  "pd_cut (lo # hi # bins) (l # labels) x =
     (if lo < x \<and> x \<le> hi then Some l else pd_cut (hi # bins) labels x)"
| "pd_cut bins labels x = None"

definition deduction_labels :: "string list" where
  "deduction_labels = [''under 30'', ''30 - 50'', ''over 50'']"

definition deduction_bins :: "real list" where
  "deduction_bins = [0, 30, 50, 999999]"

definition deductions_of :: "compacted_item \<Rightarrow> string option" where
  "deductions_of r = pd_cut deduction_bins deduction_labels \<bar>LC_Amount r\<bar>"

type_synonym group_key = "string \<times> nat \<times> nat \<times> nat \<times> nat \<times> string"

text \<open>The index of the pivot table, after \<open>Customer_Number.fillna(0)\<close>.\<close>

definition group_key :: "compacted_item \<Rightarrow> group_key" where
  "group_key r =
     (Company_Code r, GL_Account r, Year r, Period r,
      (case Customer_Number r of None \<Rightarrow> 0 | Some n \<Rightarrow> n), Currency r)"

record aggregated_row =
  agg_Company_Code :: string
  agg_GL_Account :: nat
  agg_Year :: nat
  agg_Period :: nat
  agg_Customer_Number :: "nat option"
  agg_Currency :: string
  Deductions :: string
  Deductions_Count :: nat
  Deductions_Total :: real

text \<open>
  One cell of the pivot table, stacked back into a row: the rows of the group are counted
  (the count is cast to \<open>uint16\<close>) and their signed amounts summed. A group without rows
  gets the \<open>fill_value\<close> 0 in both columns.
\<close>

definition pivot_cell :: "compacted_item list \<Rightarrow> group_key \<Rightarrow> string \<Rightarrow> aggregated_row" where
  "pivot_cell data k l =
     (let x = filter (\<lambda>r. group_key r = k \<and> deductions_of r = Some l) data
      in case k of (cc, gl, yr, per, cn, cur) \<Rightarrow>
           \<lparr>agg_Company_Code = cc, agg_GL_Account = gl, agg_Year = yr, agg_Period = per,
            agg_Customer_Number = Some cn, agg_Currency = cur, Deductions = l,
            Deductions_Count = length x mod 2 ^ 16,
            Deductions_Total = sum_list (map LC_Amount x)\<rparr>)"

text \<open>
  \<open>pivot_table\<close> groups by the six index columns and the column \<open>Deductions\<close>; a row
  whose \<open>Deductions\<close> is \<open>NaN\<close> belongs to no group. The index holds the keys of the
  remaining rows in sorted order, the columns hold the labels that occur among them, and
  \<open>stack().reset_index()\<close> gives one row for each key and each such label. When no row
  has a label, the pivot table is empty and has no column \<open>Deductions_Count\<close>: the cast
  of that column after the stacking raises \<open>KeyError\<close>.
\<close>

definition aggregate_data :: "compacted_item list \<Rightarrow> error + aggregated_row list" where
  "aggregate_data preprocessed =
     (let data = filter (\<lambda>r. deductions_of r \<noteq> None) preprocessed;
          index = sort (remdups (map group_key data));
          columns = filter (\<lambda>l. Some l \<in> set (map deductions_of data)) deduction_labels
      in if data = [] then Inl KeyError
         else Inr (concat (map (\<lambda>k. map (pivot_cell data k) columns) index)))"

text \<open>
  The quantities that the properties of the aggregation compare: for a grouping key, the
  sums of \<open>Deductions_Total\<close> and of \<open>Deductions_Count\<close> over the rows of the aggregated
  table with that key, and the sum of \<open>LC_Amount\<close> and the number of the input rows with
  that key.
\<close>

definition agg_key :: "aggregated_row \<Rightarrow> group_key" where
  "agg_key a =
     (agg_Company_Code a, agg_GL_Account a, agg_Year a, agg_Period a,
      (case agg_Customer_Number a of None \<Rightarrow> 0 | Some n \<Rightarrow> n), agg_Currency a)"

definition key_total :: "aggregated_row list \<Rightarrow> group_key \<Rightarrow> real" where
  "key_total rows k = sum_list (map Deductions_Total (filter (\<lambda>a. agg_key a = k) rows))"

definition key_count :: "aggregated_row list \<Rightarrow> group_key \<Rightarrow> nat" where
  "key_count rows k = sum_list (map Deductions_Count (filter (\<lambda>a. agg_key a = k) rows))"

definition input_total :: "compacted_item list \<Rightarrow> group_key \<Rightarrow> real" where
  "input_total rows k = sum_list (map LC_Amount (filter (\<lambda>r. group_key r = k) rows))"

definition input_count :: "compacted_item list \<Rightarrow> group_key \<Rightarrow> nat" where
  "input_count rows k = length (filter (\<lambda>r. group_key r = k) rows)"

section \<open>\<open>assign_customers\<close>\<close>

text \<open>
  The customer master as \<open>_load_customer_data\<close> returns it, with the four columns that
  \<open>assign_customers\<close> reads. Reading the two files is input and output; the merged table
  is an argument here.
\<close>

record customer =
  cust_head_office :: "nat option"
  cust_branch_number :: "nat option"
  cust_Customer_Name :: "string option"
  cust_Company_Code :: "string option"

record resolved_row = aggregated_row +
  Customer_Name :: "string option"
  head_office :: "nat option"

text \<open>
  \<open>pd.merge(left, right, how = "left")\<close>: the left rows in their order, each once for
  every right row with an equal key, and once with the right columns missing when there
  is none.
\<close>

definition merge_row :: "('l \<Rightarrow> 'r \<Rightarrow> bool) \<Rightarrow> 'r list \<Rightarrow> 'l \<Rightarrow> ('l \<times> 'r option) list" where
  "merge_row on right l =
     (let ms = filter (on l) right
      in if ms = [] then [(l, None)] else map (\<lambda>r. (l, Some r)) ms)"

definition left_merge :: "('l \<Rightarrow> 'r \<Rightarrow> bool) \<Rightarrow> 'l list \<Rightarrow> 'r list \<Rightarrow> ('l \<times> 'r option) list" where
  "left_merge on left right = concat (map (merge_row on right) left)"

text \<open>\<open>drop_duplicates()\<close> keeps the first of equal rows.\<close>

fun drop_duplicates_seen :: "'a list \<Rightarrow> 'a list \<Rightarrow> 'a list" where
  "drop_duplicates_seen seen [] = []"
| "drop_duplicates_seen seen (x # xs) =
     (if x \<in> set seen then drop_duplicates_seen seen xs
      else x # drop_duplicates_seen (x # seen) xs)"

definition drop_duplicates :: "'a list \<Rightarrow> 'a list" where
  "drop_duplicates xs = drop_duplicates_seen [] xs"

text \<open>
  The first merge: on \<open>Customer_Number = branch_number\<close> and \<open>Company_Code\<close>, against the
  master rows that have all three columns (\<open>dropna(axis = 0)\<close>).
\<close>

definition branch_rows :: "customer list \<Rightarrow> customer list" where
  "branch_rows cust_data =
     filter (\<lambda>c. cust_branch_number c \<noteq> None \<and> cust_Customer_Name c \<noteq> None
                 \<and> cust_Company_Code c \<noteq> None) cust_data"

definition on_branch :: "aggregated_row \<Rightarrow> customer \<Rightarrow> bool" where
  "on_branch a c =
     (cust_branch_number c = agg_Customer_Number a
      \<and> cust_Company_Code c = Some (agg_Company_Code a))"

definition updated_cust_num ::
  "aggregated_row list \<Rightarrow> customer list \<Rightarrow> (aggregated_row \<times> customer option) list" where
  "updated_cust_num aggregated cust_data =
     left_merge on_branch aggregated (branch_rows cust_data)"

text \<open>The second merge: on \<open>Customer_Number = head_office\<close>.\<close>

definition head_office_rows :: "customer list \<Rightarrow> (nat option \<times> string option) list" where
  "head_office_rows cust_data =
     drop_duplicates (map (\<lambda>c. (cust_head_office c, cust_Customer_Name c)) cust_data)"

definition on_head_office ::
  "aggregated_row \<times> customer option \<Rightarrow> nat option \<times> string option \<Rightarrow> bool" where
  "on_head_office l r = (fst r = agg_Customer_Number (fst l))"

definition updated_hd_off ::
  "(aggregated_row \<times> customer option) list \<Rightarrow> customer list \<Rightarrow>
     ((aggregated_row \<times> customer option) \<times> (nat option \<times> string option) option) list" where
  "updated_hd_off merged cust_data =
     left_merge on_head_office merged (head_office_rows cust_data)"

text \<open>
  \<open>Customer_Name_x\<close> takes \<open>Customer_Name_y\<close> where it is missing, \<open>Customer_Name_y\<close> is
  dropped and \<open>Customer_Name_x\<close> renamed.
\<close>

definition renamed_row ::
  "(aggregated_row \<times> customer option) \<times> (nat option \<times> string option) option \<Rightarrow> resolved_row" where
  "renamed_row m =
     (let Customer_Name_x = (case snd (fst m) of None \<Rightarrow> None | Some c \<Rightarrow> cust_Customer_Name c);
          Customer_Name_y = (case snd m of None \<Rightarrow> None | Some r \<Rightarrow> snd r);
          hd_off = (case snd m of None \<Rightarrow> None | Some r \<Rightarrow> fst r)
      in aggregated_row.extend (fst (fst m))
           (resolved_row.fields
              (if Customer_Name_x = None then Customer_Name_y else Customer_Name_x) hd_off))"

definition assign_customers ::
  "compacted_item list \<Rightarrow> customer list \<Rightarrow> error + resolved_row list" where
  "assign_customers compacted cust_data =
     (if compacted = [] then Inl ValueError
      else
        (case aggregate_data compacted of
           Inl e \<Rightarrow> Inl e
         | Inr aggregated \<Rightarrow>
             (let renamed = map renamed_row
                    (updated_hd_off (updated_cust_num aggregated cust_data) cust_data)
              in if length aggregated = length renamed then Inr renamed
                 else Inl AssertionError)))"

text \<open>
  The merge policy in the words of the specification: the branch-level name of a row is
  that of the master's branch record with its customer number and company code, the
  head-office name that of the master's record with its customer number as head office.
\<close>

definition branch_name :: "customer list \<Rightarrow> aggregated_row \<Rightarrow> string option" where
  "branch_name cust_data a =
     (case find (on_branch a) (branch_rows cust_data) of
        None \<Rightarrow> None
      | Some c \<Rightarrow> cust_Customer_Name c)"

definition head_office_name :: "customer list \<Rightarrow> aggregated_row \<Rightarrow> string option" where
  "head_office_name cust_data a =
     (case find (\<lambda>c. cust_head_office c = agg_Customer_Number a) cust_data of
        None \<Rightarrow> None
      | Some c \<Rightarrow> cust_Customer_Name c)"

definition spec_customer_name :: "customer list \<Rightarrow> aggregated_row \<Rightarrow> string option" where
  "spec_customer_name cust_data a =
     (case branch_name cust_data a of
        Some n \<Rightarrow> Some n
      | None \<Rightarrow> head_office_name cust_data a)"

section \<open>\<open>generate_excel_report\<close>\<close>

text \<open>
  The two DataFrames of the caller are the state. The function raises before it touches
  them when one is empty, and otherwise blanks the zero customer numbers in both. What
  follows works on reordered copies and on files; it is the argument \<open>write\<close>, which
  returns the path of the report or raises.
\<close>

record report_tables =
  processed :: "resolved_row list"
  exported :: "compacted_item list"

definition blank_processed :: "resolved_row \<Rightarrow> resolved_row" where
  "blank_processed r =
     (if agg_Customer_Number r = Some 0 then r\<lparr>agg_Customer_Number := None\<rparr> else r)"

definition blank_exported :: "compacted_item \<Rightarrow> compacted_item" where
  "blank_exported r =
     (if Customer_Number r = Some 0 then r\<lparr>Customer_Number := None\<rparr> else r)"

definition generate_excel_report ::
  "(report_tables \<Rightarrow> error + string) \<Rightarrow> report_tables \<Rightarrow> (error + string) \<times> report_tables" where
  "generate_excel_report write st =
     (if processed st = [] then (Inl ValueError, st)
      else if exported st = [] then (Inl ValueError, st)
      else
        (let st' = \<lparr>processed = map blank_processed (processed st),
                    exported = map blank_exported (exported st)\<rparr>
         in (write st', st')))"

section \<open>Example data\<close>

definition example_item :: "string \<Rightarrow> nat \<Rightarrow> line_item" where
  "example_item t oa =
     \<lparr>Currency = ''EUR'', Company_Code = ''0075'', GL_Account = 66010030, Year = 2022,
      Period = 5, Document_Type = ''DZ'', Offsetting_Account = oa,
      Offsetting_Account_Type = ''D'', LC_Amount = 25, Text = Some t\<rparr>"

definition example_compacted :: "nat option \<Rightarrow> real \<Rightarrow> compacted_item" where
  "example_compacted cn amount =
     \<lparr>Currency = ''EUR'', Company_Code = ''0075'', GL_Account = 66010030, Year = 2022,
      Period = 5, Document_Type = ''DZ'', Offsetting_Account = 555000,
      Offsetting_Account_Type = ''D'', LC_Amount = amount, Text = Some '''',
      Customer_Number = cn\<rparr>"

definition example_key :: "nat \<Rightarrow> group_key" where
  "example_key cn = (''0075'', 66010030, 2022, 5, cn, ''EUR'')"

definition example_customer ::
  "nat \<Rightarrow> nat option \<Rightarrow> string \<Rightarrow> string option \<Rightarrow> customer" where
  "example_customer hd_off branch name company_code =
     \<lparr>cust_head_office = Some hd_off, cust_branch_number = branch,
      cust_Customer_Name = Some name, cust_Company_Code = company_code\<rparr>"

definition example_aggregated :: aggregated_row where
  "example_aggregated =
     \<lparr>agg_Company_Code = ''0075'', agg_GL_Account = 66010030, agg_Year = 2022, agg_Period = 5,
      agg_Customer_Number = Some 7, agg_Currency = ''EUR'', Deductions = ''under 30'',
      Deductions_Count = 1, Deductions_Total = 20\<rparr>"

definition example_resolved :: "nat option \<Rightarrow> resolved_row" where
  "example_resolved cn =
     \<lparr>agg_Company_Code = ''0075'', agg_GL_Account = 66010030, agg_Year = 2022, agg_Period = 5,
      agg_Customer_Number = cn, agg_Currency = ''EUR'', Deductions = ''under 30'',
      Deductions_Count = 1, Deductions_Total = 20, Customer_Name = None, head_office = None\<rparr>"

definition example_tables :: report_tables where
  "example_tables =
     \<lparr>processed = [example_resolved (Some 0), example_resolved (Some 7)],
      exported = [example_compacted (Some 0) 20, example_compacted None 20]\<rparr>"

section \<open>Modelling assumptions\<close>

text \<open>
  The following behaviour of pandas and NumPy is taken from their documented semantics
  and was not observed by running the program:
  \<^item> the logical operation of an integer with a boolean Series is cast to bool, so that
    \<open>missing_cust_acc\<close> compares the account with 0 or 1;
  \<^item> \<open>np.uint64\<close> of a string that is not all digits raises \<open>ValueError\<close>;
  \<^item> \<open>pivot_table\<close> leaves out a row whose \<open>Deductions\<close> is \<open>NaN\<close> and has a column
    only for a label that occurs; the order of the index (sorted here) and the set of
    columns do not enter any property below;
  \<^item> \<open>_aggregate_data\<close> raises \<open>KeyError\<close> exactly when no row has a label, an empty
    input table included;
  \<^item> the casts to \<open>uint32\<close> and \<open>uint16\<close> wrap around. Whether the cast of an object
    column raises instead depends on the library version; every evaluation below is at
    values that fit.
\<close>

section \<open>Properties of \<open>_parse_amounts\<close>\<close>

lemma str_replace_append:
  "str_replace c n (a @ b) = str_replace c n a @ str_replace c n b"
  by (simp add: str_replace_def)

lemma set_str_replace: "set (str_replace c n s) \<subseteq> (set s - {c}) \<union> set n"
  by (induction s) (auto simp: str_replace_def)

lemma str_replace_absent: "c \<notin> set s \<Longrightarrow> str_replace c n s = s"
  by (induction s) (auto simp: str_replace_def)

lemma endswith_minus: "endswith s ''-'' = (s \<noteq> [] \<and> last s = CHR ''-'')"
proof (cases s rule: rev_cases)
  case Nil
  then show ?thesis by (simp add: endswith_def)
next
  case (snoc ys y)
  then show ?thesis by (simp add: endswith_def)
qed

lemma to_numeric_unsigned:
  assumes "CHR ''-'' \<notin> set s" and "CHR ''+'' \<notin> set s"
  shows "to_numeric s = unsigned_decimal s"
proof (cases s)
  case Nil
  then show ?thesis by (simp add: to_numeric_def unsigned_decimal_def)
next
  case (Cons c t)
  with assms have "c \<noteq> CHR ''-''" "c \<noteq> CHR ''+''" by auto
  with Cons show ?thesis by (simp add: to_numeric_def)
qed

lemma to_numeric_minus:
  "to_numeric (CHR ''-'' # s) = map_option uminus (unsigned_decimal s)"
  by (simp add: to_numeric_def)

lemma sap_char_not_sign: "sap_char c \<Longrightarrow> c \<noteq> CHR ''-'' \<and> c \<noteq> CHR ''+''"
  by (auto simp: sap_char_def is_digit_def)

lemma converted_no_sign:
  assumes "list_all sap_char b"
  shows "CHR ''-'' \<notin> set (str_replace (CHR '','') ''.'' (str_replace (CHR ''.'') '''' b))
       \<and> CHR ''+'' \<notin> set (str_replace (CHR '','') ''.'' (str_replace (CHR ''.'') '''' b))"
proof -
  let ?a = "str_replace (CHR ''.'') '''' b"
  let ?r = "str_replace (CHR '','') ''.'' ?a"
  from assms have b: "CHR ''-'' \<notin> set b \<and> CHR ''+'' \<notin> set b"
    using sap_char_not_sign by (fastforce simp: list_all_iff)
  have "set ?a \<subseteq> set b"
    using set_str_replace [of "CHR ''.''" "''''" b] by auto
  moreover have "set ?r \<subseteq> set ?a \<union> {CHR ''.''}"
    using set_str_replace [of "CHR '',''" "''.''" ?a] by auto
  ultimately have "set ?r \<subseteq> set b \<union> {CHR ''.''}" by blast
  with b show ?thesis by auto
qed

lemma parse_amount_plain:
  assumes "list_all sap_char v"
  shows "parse_amount v = spec_parse_amount v"
proof -
  let ?r = "str_replace (CHR '','') ''.'' (str_replace (CHR ''.'') '''' v)"
  from converted_no_sign [OF assms] have "CHR ''-'' \<notin> set ?r" by simp
  then have "\<not> (?r \<noteq> [] \<and> last ?r = CHR ''-'')"
    using last_in_set [of ?r] by metis
  then have "\<not> endswith ?r ''-''" by (simp add: endswith_minus)
  then show ?thesis
    by (simp add: parse_amount_def parse_amounts_text_def spec_parse_amount_def Let_def)
qed

lemma parse_amount_trailing:
  assumes "list_all sap_char b"
  shows "parse_amount (b @ ''-'') = spec_parse_amount (b @ ''-'')"
proof -
  let ?rb = "str_replace (CHR '','') ''.'' (str_replace (CHR ''.'') '''' b)"
  let ?r = "str_replace (CHR '','') ''.'' (str_replace (CHR ''.'') '''' (b @ ''-''))"
  have m: "str_replace (CHR '','') ''.'' (str_replace (CHR ''.'') '''' ''-'') = ''-''"
    by (simp add: str_replace_def)
  have r: "?r = ?rb @ ''-''"
    by (simp only: str_replace_append m)
  from converted_no_sign [OF assms]
  have clean: "CHR ''-'' \<notin> set ?rb" "CHR ''+'' \<notin> set ?rb" by simp_all
  have ends: "endswith (?rb @ ''-'') ''-''" by (simp add: endswith_minus)
  have d: "str_replace (CHR ''-'') '''' ''-'' = ''''" by (simp add: str_replace_def)
  have strip: "str_replace (CHR ''-'') '''' (?rb @ ''-'') = ?rb"
    by (simp only: str_replace_append d str_replace_absent [OF clean(1)] append_Nil2)
  have code: "parse_amounts_text (b @ ''-'') = CHR ''-'' # ?rb"
    unfolding parse_amounts_text_def Let_def r using ends strip by simp
  have "parse_amount (b @ ''-'') = map_option uminus (unsigned_decimal ?rb)"
    unfolding parse_amount_def code by (rule to_numeric_minus)
  moreover have "spec_parse_amount (b @ ''-'') = map_option uminus (to_numeric ?rb)"
    unfolding spec_parse_amount_def Let_def r using ends by simp
  moreover have "to_numeric ?rb = unsigned_decimal ?rb"
    by (rule to_numeric_unsigned [OF clean])
  ultimately show ?thesis by simp
qed

lemmas amount_eval =
  parse_amounts_def parse_amount_def parse_amounts_text_def str_replace_def endswith_def
  to_numeric_def unsigned_decimal_def is_digit_def nat_of_digits_def digit_val_def

text \<open>
  C6. On an amount in the SAP format, \<open>_parse_amounts\<close> computes what the specification
  describes: all \<open>.\<close> removed, \<open>,\<close> replaced by \<open>.\<close>, and a trailing \<open>-\<close> stripped and the
  value negated. The three amounts of the specification parse to 1234.56, -50 and 0.
\<close>

theorem parse_amounts_sap_format:
  assumes "sap_format v"
  shows "parse_amount v = spec_parse_amount v
       \<and> parse_amounts [''1.234,56'', ''50,00-'', ''0,00'']
           = [Some (123456 / 100), Some (- 50), Some 0]"
proof -
  have "parse_amount v = spec_parse_amount v"
  proof (cases "endswith v ''-''")
    case True
    then obtain b where v: "v = b @ ''-''"
      by (cases v rule: rev_cases) (auto simp: endswith_minus)
    with assms True have "list_all sap_char b"
      by (simp add: sap_format_def sap_body_def)
    then show ?thesis unfolding v by (rule parse_amount_trailing)
  next
    case False
    with assms have "list_all sap_char v"
      by (simp add: sap_format_def sap_body_def)
    then show ?thesis by (rule parse_amount_plain)
  qed
  moreover have "parse_amounts [''1.234,56'', ''50,00-'', ''0,00'']
      = [Some (123456 / 100), Some (- 50), Some 0]"
    by (simp add: amount_eval)
  ultimately show ?thesis by simp
qed

theorem parse_amounts_sap_format_witness:
  "sap_format ''50,00-''
   \<and> parse_amount ''50,00-'' = spec_parse_amount ''50,00-''
   \<and> spec_parse_amount ''50,00-'' = Some (- 50)"
proof -
  have h: "sap_format ''50,00-''"
    by (simp add: sap_format_def sap_body_def sap_char_def is_digit_def endswith_def)
  have "parse_amount ''50,00-'' = Some (- 50)"
    by (simp add: amount_eval)
  with h parse_amounts_sap_format [OF h] show ?thesis by simp
qed

section \<open>Properties of \<open>compact_data\<close>\<close>

lemma missing_cust_acc_eq: "missing_cust_acc oa cn = (oa \<noteq> 0)"
  by (simp add: missing_cust_acc_def and_one_eq)

lemma findall_no_id: "findall ''no id here'' = []"
  by code_simp

lemma findall_abc: "findall ''ABC 1234567 note'' = [''1234567'']"
  by code_simp

lemma findall_comma: "findall ''x,123456'' = ['',123456'']"
  by code_simp

lemma extract_no_id: "extract_customer_number ''no id here'' = Inr None"
  by (simp add: extract_customer_number_def findall_no_id del: findall.simps)

lemma extract_abc: "extract_customer_number ''ABC 1234567 note'' = Inr (Some 1234567)"
  by (simp add: extract_customer_number_def findall_abc np_uint64_def is_digit_def
      nat_of_digits_def digit_val_def del: findall.simps)

lemma extract_comma: "extract_customer_number ''x,123456'' = Inl ValueError"
  by (simp add: extract_customer_number_def findall_comma np_uint64_def is_digit_def
      del: findall.simps)

lemmas compact_eval =
  compact_data_def compact_row_def example_item_def missing_cust_acc_eq
  line_item.extend_def compacted_item.fields_def

text \<open>
  What the fallback does on every row whose text conversion does not raise: the customer
  number is the offsetting account whenever that is not 0, and the extracted identifier
  otherwise.
\<close>

lemma compact_row_customer_number:
  assumes "extract_customer_number (case Text r of None \<Rightarrow> '''' | Some t \<Rightarrow> t) = Inr x"
  shows "map_sum id Customer_Number (compact_row r)
       = Inr (if Offsetting_Account r \<noteq> 0 then Some (Offsetting_Account r mod 2 ^ 32)
              else map_option (\<lambda>v. v mod 2 ^ 32) x)"
  using assms
  by (simp add: compact_row_def Let_def missing_cust_acc_eq line_item.extend_def
      compacted_item.fields_def)

text \<open>
  C1. The code at the inputs where it departs from the claim. A row without an identifier
  in \<open>Text\<close> and with the cheque account 48505240 as \<open>Offsetting_Account\<close> gets
  \<open>Customer_Number\<close> 48505240, where the claim keeps it absent; and the identifier 1234567
  extracted from \<open>Text\<close> is overwritten by the offsetting account 999999, where the claim
  says it is never overwritten. With the offsetting account 0 the extracted identifier
  stays.
\<close>

theorem compact_data_fallback_mask:
  "map_sum id (map Customer_Number)
     (compact_data [[example_item ''no id here'' 48505240]]) = Inr [Some 48505240]
   \<and> map_sum id (map Customer_Number)
       (compact_data [[example_item ''ABC 1234567 note'' 999999]]) = Inr [Some 999999]
   \<and> map_sum id (map Customer_Number)
       (compact_data [[example_item ''ABC 1234567 note'' 0]]) = Inr [Some 1234567]"
  by (simp add: compact_eval extract_no_id extract_abc)

text \<open>
  C2. The code at an input where it departs from the claim. The character class
  \<open>[1,4]\<close> holds the comma, so in the text \<open>x,123456\<close> the pattern matches and captures
  \<open>,123456\<close>; the conversion of that group to a number raises, and \<open>compact_data\<close> fails
  for the whole table, where the claim finds no identifier in this text.
\<close>

theorem compact_data_comma_group:
  "findall ''x,123456'' = ['',123456'']
   \<and> compact_data [[example_item ''x,123456'' 999999]] = Inl ValueError"
  by (simp add: compact_eval extract_comma findall_comma del: findall.simps)

section \<open>Properties of \<open>_aggregate_data\<close>\<close>

lemma pd_cut_deductions:
  "pd_cut deduction_bins deduction_labels v =
     (if 0 < v \<and> v \<le> 30 then Some ''under 30''
      else if 30 < v \<and> v \<le> 50 then Some ''30 - 50''
      else if 50 < v \<and> v \<le> 999999 then Some ''over 50''
      else None)"
  by (simp add: deduction_bins_def deduction_labels_def)

lemmas aggregate_eval =
  aggregate_data_def example_compacted_def deductions_of_def deduction_bins_def
  deduction_labels_def group_key_def pivot_cell_def

lemma aggregate_beyond_bins:
  "aggregate_data [example_compacted (Some 7) 1000000, example_compacted (Some 7) 20]
     = Inr [example_aggregated]"
  by (simp add: aggregate_eval example_aggregated_def)

lemma aggregate_zero_amount:
  "aggregate_data [example_compacted (Some 7) 0, example_compacted (Some 7) 20]
     = Inr [example_aggregated]"
  by (simp add: aggregate_eval example_aggregated_def)

lemma aggregate_one_row:
  "aggregate_data [example_compacted (Some 7) 20] = Inr [example_aggregated]"
  by (simp add: aggregate_eval example_aggregated_def)

lemma aggregate_no_bucket:
  "aggregate_data [example_compacted (Some 7) 0, example_compacted (Some 7) 1000000]
     = Inl KeyError"
  by (simp add: aggregate_eval)

lemmas key_eval =
  key_total_def key_count_def input_total_def input_count_def agg_key_def group_key_def
  example_key_def example_aggregated_def example_compacted_def

text \<open>
  C3. The code at an input where it departs from the claim. Of two rows of one grouping
  key with the amounts 1000000 and 20, the first lies beyond the last bin edge 999999 and
  enters no bucket: the totals of the key's buckets sum to 20, the amounts of its rows to
  1000020.
\<close>

theorem aggregate_data_total_beyond_bins:
  "aggregate_data [example_compacted (Some 7) 1000000, example_compacted (Some 7) 20]
     = Inr [example_aggregated]
   \<and> key_total [example_aggregated] (example_key 7) = 20
   \<and> input_total [example_compacted (Some 7) 1000000, example_compacted (Some 7) 20]
       (example_key 7) = 1000020"
  by (simp add: aggregate_beyond_bins) (simp add: key_eval)

text \<open>
  C4. The code at an input where it departs from the claim. Of two rows of one grouping
  key with the amounts 0 and 20, the first is assigned to no bucket, since the first bin
  is open at 0: the counts of the key's buckets sum to 1, and the key has 2 rows.
\<close>

theorem aggregate_data_count_zero_amount:
  "deductions_of (example_compacted (Some 7) 0) = None
   \<and> aggregate_data [example_compacted (Some 7) 0, example_compacted (Some 7) 20]
       = Inr [example_aggregated]
   \<and> key_count [example_aggregated] (example_key 7) = 1
   \<and> input_count [example_compacted (Some 7) 0, example_compacted (Some 7) 20]
       (example_key 7) = 2"
  by (simp add: aggregate_zero_amount)
    (simp add: key_eval deductions_of_def deduction_bins_def deduction_labels_def)

text \<open>
  C5. The code at the inputs where it departs from the claim. The boundaries are
  right-closed, 30 falls in \<open>under 30\<close> and 50 in \<open>30 - 50\<close>; but the value 0 and a value
  above 999999 fall in no bucket, where the claim puts them in \<open>under 30\<close> and
  \<open>over 50\<close>.
\<close>

theorem pd_cut_outside_bins:
  "pd_cut deduction_bins deduction_labels 0 = None
   \<and> pd_cut deduction_bins deduction_labels 1000000 = None
   \<and> pd_cut deduction_bins deduction_labels 30 = Some ''under 30''
   \<and> pd_cut deduction_bins deduction_labels 50 = Some ''30 - 50''
   \<and> pd_cut deduction_bins deduction_labels 999999 = Some ''over 50''"
  by (simp add: pd_cut_deductions)

text \<open>
  For a table with rows whose absolute amounts all lie in the bins, the bucket totals of
  every key sum to the amounts of its rows; with fewer than 65536 rows the bucket counts
  sum to the number of its rows.
\<close>

lemma sum_list_indicator:
  fixes c :: "'b::comm_monoid_add"
  assumes "distinct xs"
  shows "sum_list (map (\<lambda>x. if x = k then c else 0) xs) = (if k \<in> set xs then c else 0)"
  using assms by (induction xs) auto

lemma sum_list_filter_concat:
  fixes f :: "'a \<Rightarrow> 'b::comm_monoid_add"
  shows "sum_list (map f (filter P (concat (map F ks))))
       = sum_list (map (\<lambda>k. sum_list (map f (filter P (F k)))) ks)"
  by (induction ks) auto

lemma sum_list_by_label:
  fixes f :: "'a \<Rightarrow> 'b::comm_monoid_add"
  assumes "distinct ls" and "\<forall>r \<in> set xs. \<exists>l \<in> set ls. g r = Some l"
  shows "sum_list (map (\<lambda>l. sum_list (map f (filter (\<lambda>r. P r \<and> g r = Some l) xs))) ls)
       = sum_list (map f (filter P xs))"
  using assms(2)
proof (induction xs)
  case Nil
  then show ?case by simp
next
  case (Cons x xs)
  then obtain l0 where l0: "l0 \<in> set ls" "g x = Some l0" by auto
  have "sum_list (map (\<lambda>l. sum_list (map f (filter (\<lambda>r. P r \<and> g r = Some l) (x # xs)))) ls)
      = sum_list (map (\<lambda>l. (if l = l0 then (if P x then f x else 0) else 0)
          + sum_list (map f (filter (\<lambda>r. P r \<and> g r = Some l) xs))) ls)"
    by (rule arg_cong [where f = sum_list], rule map_cong [OF refl]) (use l0 in auto)
  also have "\<dots> = sum_list (map (\<lambda>l. if l = l0 then (if P x then f x else 0) else 0) ls)
      + sum_list (map (\<lambda>l. sum_list (map f (filter (\<lambda>r. P r \<and> g r = Some l) xs))) ls)"
    by (simp add: sum_list_addf)
  also have "\<dots> = (if P x then f x else 0) + sum_list (map f (filter P xs))"
    using Cons l0 by (simp add: sum_list_indicator [OF assms(1)])
  finally show ?case by simp
qed

lemma deductions_of_label: "deductions_of r = Some l \<Longrightarrow> l \<in> set deduction_labels"
proof -
  assume "deductions_of r = Some l"
  then have "l = ''under 30'' \<or> l = ''30 - 50'' \<or> l = ''over 50''"
    unfolding deductions_of_def pd_cut_deductions by (auto split: if_splits)
  then show ?thesis by (auto simp: deduction_labels_def)
qed

lemma agg_key_pivot_cell: "agg_key (pivot_cell data k l) = k"
  by (cases k) (simp add: agg_key_def pivot_cell_def Let_def)

lemma total_pivot_cell:
  "Deductions_Total (pivot_cell data k l)
     = sum_list (map LC_Amount (filter (\<lambda>r. group_key r = k \<and> deductions_of r = Some l) data))"
  by (cases k) (simp add: pivot_cell_def Let_def)

lemma count_pivot_cell:
  "Deductions_Count (pivot_cell data k l)
     = length (filter (\<lambda>r. group_key r = k \<and> deductions_of r = Some l) data) mod 2 ^ 16"
  by (cases k) (simp add: pivot_cell_def Let_def)

lemma aggregate_data_within_bins:
  assumes "\<forall>r \<in> set t. deductions_of r \<noteq> None" and "t \<noteq> []"
  shows "aggregate_data t =
     Inr (concat (map (\<lambda>k. map (pivot_cell t k)
                (filter (\<lambda>l. Some l \<in> set (map deductions_of t)) deduction_labels))
        (sort (remdups (map group_key t)))))"
proof -
  from assms(1) have "filter (\<lambda>r. deductions_of r \<noteq> None) t = t" by simp
  with assms(2) show ?thesis by (simp add: aggregate_data_def Let_def)
qed

lemma columns_cover:
  assumes "\<forall>r \<in> set t. deductions_of r \<noteq> None"
  shows "\<forall>r \<in> set t. \<exists>l \<in> set (filter (\<lambda>l. Some l \<in> set (map deductions_of t)) deduction_labels).
           deductions_of r = Some l"
proof
  fix r assume r: "r \<in> set t"
  with assms obtain l where l: "deductions_of r = Some l" by auto
  from deductions_of_label [OF l] have "l \<in> set deduction_labels" .
  moreover from r l have "Some l \<in> set (map deductions_of t)" by force
  ultimately show "\<exists>l \<in> set (filter (\<lambda>l. Some l \<in> set (map deductions_of t)) deduction_labels).
           deductions_of r = Some l"
    using l by auto
qed

lemma key_total_within_bins:
  assumes "\<forall>r \<in> set t. deductions_of r \<noteq> None" and "t \<noteq> []"
  shows "map_sum id (\<lambda>rows. key_total rows k) (aggregate_data t) = Inr (input_total t k)"
proof -
  let ?cols = "filter (\<lambda>l. Some l \<in> set (map deductions_of t)) deduction_labels"
  let ?idx = "sort (remdups (map group_key t))"
  have dc: "distinct ?cols" by (simp add: deduction_labels_def)
  have di: "distinct ?idx" by simp
  have per_key: "sum_list (map Deductions_Total
        (filter (\<lambda>a. agg_key a = k) (map (pivot_cell t k') ?cols)))
      = (if k' = k then input_total t k else 0)" for k'
  proof (cases "k' = k")
    case True
    have "filter (\<lambda>a. agg_key a = k) (map (pivot_cell t k) ?cols) = map (pivot_cell t k) ?cols"
      by (simp add: agg_key_pivot_cell)
    then have "sum_list (map Deductions_Total
        (filter (\<lambda>a. agg_key a = k) (map (pivot_cell t k) ?cols)))
      = sum_list (map (\<lambda>l. sum_list (map LC_Amount
           (filter (\<lambda>r. group_key r = k \<and> deductions_of r = Some l) t))) ?cols)"
      by (simp add: comp_def total_pivot_cell)
    also have "\<dots> = sum_list (map LC_Amount (filter (\<lambda>r. group_key r = k) t))"
      by (rule sum_list_by_label [OF dc columns_cover [OF assms(1)]])
    finally show ?thesis using True by (simp add: input_total_def)
  next
    case False
    then have "filter (\<lambda>a. agg_key a = k) (map (pivot_cell t k') ?cols) = []"
      by (simp add: filter_empty_conv agg_key_pivot_cell)
    with False show ?thesis by simp
  qed
  have "key_total (concat (map (\<lambda>k. map (pivot_cell t k) ?cols) ?idx)) k
      = sum_list (map (\<lambda>k'. if k' = k then input_total t k else 0) ?idx)"
    unfolding key_total_def sum_list_filter_concat
    by (simp only: per_key)
  also have "\<dots> = (if k \<in> set ?idx then input_total t k else 0)"
    by (rule sum_list_indicator [OF di])
  also have "\<dots> = input_total t k"
  proof (cases "k \<in> set ?idx")
    case True
    then show ?thesis by simp
  next
    case False
    then have "filter (\<lambda>r. group_key r = k) t = []"
      by (auto simp: filter_empty_conv)
    with False show ?thesis by (simp add: input_total_def)
  qed
  finally show ?thesis
    by (simp add: aggregate_data_within_bins [OF assms])
qed

lemma length_as_sum: "length xs = sum_list (map (\<lambda>x. 1 :: nat) xs)"
  by (induction xs) auto

lemma key_count_within_bins:
  assumes "\<forall>r \<in> set t. deductions_of r \<noteq> None" and "t \<noteq> []"
    and "length t < 2 ^ 16"
  shows "map_sum id (\<lambda>rows. key_count rows k) (aggregate_data t) = Inr (input_count t k)"
proof -
  let ?cols = "filter (\<lambda>l. Some l \<in> set (map deductions_of t)) deduction_labels"
  let ?idx = "sort (remdups (map group_key t))"
  have dc: "distinct ?cols" by (simp add: deduction_labels_def)
  have di: "distinct ?idx" by simp
  have cell: "Deductions_Count (pivot_cell t k' l)
      = sum_list (map (\<lambda>x. 1 :: nat)
          (filter (\<lambda>r. group_key r = k' \<and> deductions_of r = Some l) t))" for k' l
  proof -
    have "length (filter (\<lambda>r. group_key r = k' \<and> deductions_of r = Some l) t) \<le> length t"
      by (rule length_filter_le)
    with assms(3)
    have "length (filter (\<lambda>r. group_key r = k' \<and> deductions_of r = Some l) t) < 2 ^ 16"
      by linarith
    then show ?thesis
      unfolding count_pivot_cell by (simp only: mod_less length_as_sum [symmetric])
  qed
  have per_key: "sum_list (map Deductions_Count
        (filter (\<lambda>a. agg_key a = k) (map (pivot_cell t k') ?cols)))
      = (if k' = k then input_count t k else 0)" for k'
  proof (cases "k' = k")
    case True
    have "filter (\<lambda>a. agg_key a = k) (map (pivot_cell t k) ?cols) = map (pivot_cell t k) ?cols"
      by (simp add: agg_key_pivot_cell)
    then have "sum_list (map Deductions_Count
        (filter (\<lambda>a. agg_key a = k) (map (pivot_cell t k) ?cols)))
      = sum_list (map (\<lambda>l. sum_list (map (\<lambda>x. 1 :: nat)
           (filter (\<lambda>r. group_key r = k \<and> deductions_of r = Some l) t))) ?cols)"
      by (simp add: comp_def cell)
    also have "\<dots> = sum_list (map (\<lambda>x. 1 :: nat) (filter (\<lambda>r. group_key r = k) t))"
      by (rule sum_list_by_label [OF dc columns_cover [OF assms(1)]])
    also have "\<dots> = input_count t k"
      by (simp only: input_count_def length_as_sum [symmetric])
    finally show ?thesis using True by simp
  next
    case False
    then have "filter (\<lambda>a. agg_key a = k) (map (pivot_cell t k') ?cols) = []"
      by (simp add: filter_empty_conv agg_key_pivot_cell)
    with False show ?thesis by simp
  qed
  have "key_count (concat (map (\<lambda>k. map (pivot_cell t k) ?cols) ?idx)) k
      = sum_list (map (\<lambda>k'. if k' = k then input_count t k else 0) ?idx)"
    unfolding key_count_def sum_list_filter_concat
    by (simp only: per_key)
  also have "\<dots> = (if k \<in> set ?idx then input_count t k else 0)"
    by (rule sum_list_indicator [OF di])
  also have "\<dots> = input_count t k"
  proof (cases "k \<in> set ?idx")
    case True
    then show ?thesis by simp
  next
    case False
    then have "filter (\<lambda>r. group_key r = k) t = []"
      by (auto simp: filter_empty_conv)
    with False show ?thesis by (simp add: input_count_def)
  qed
  finally show ?thesis
    by (simp add: aggregate_data_within_bins [OF assms(1,2)])
qed

section \<open>Properties of \<open>assign_customers\<close>\<close>

text \<open>
  C7. \<open>compact_data\<close> raises on an empty list of batches and \<open>assign_customers\<close> on an
  empty table, whatever the customer master; neither returns a table.
\<close>

theorem empty_input_raises:
  "compact_data [] = Inl ValueError \<and> assign_customers [] cust_data = Inl ValueError"
  by (simp add: compact_data_def assign_customers_def)

lemma find_filter: "find P xs = (case filter P xs of [] \<Rightarrow> None | x # _ \<Rightarrow> Some x)"
  by (induction xs) auto

lemma find_map_comp: "find P (map f xs) = map_option f (find (\<lambda>x. P (f x)) xs)"
  by (induction xs) auto

lemma find_drop_duplicates_seen:
  "find P (drop_duplicates_seen seen xs) = find (\<lambda>x. P x \<and> x \<notin> set seen) xs"
proof (induction xs arbitrary: seen)
  case Nil
  then show ?case by simp
next
  case (Cons x xs)
  show ?case
  proof (cases "x \<in> set seen")
    case True
    then show ?thesis by (simp add: Cons.IH)
  next
    case False
    show ?thesis
    proof (cases "P x")
      case True
      with False show ?thesis by simp
    next
      case nP: False
      have "find (\<lambda>y. P y \<and> y \<notin> set (x # seen)) xs = find (\<lambda>y. P y \<and> y \<notin> set seen) xs"
        by (rule find_cong) (use nP in auto)
      with False nP show ?thesis by (simp add: Cons.IH)
    qed
  qed
qed

lemma find_drop_duplicates: "find P (drop_duplicates xs) = find P xs"
  by (simp add: drop_duplicates_def find_drop_duplicates_seen)


lemma left_merge_Nil: "left_merge on [] right = []"
  by (simp add: left_merge_def)

lemma left_merge_Cons:
  "left_merge on (l # left) right = merge_row on right l @ left_merge on left right"
  by (simp add: left_merge_def)

lemma merge_row_length: "1 \<le> length (merge_row on right l)"
  by (cases "filter (on l) right") (simp_all add: merge_row_def)

lemma merge_row_single:
  assumes "length (merge_row on right l) = 1"
  shows "merge_row on right l = [(l, find (on l) right)]"
proof (cases "filter (on l) right")
  case Nil
  then show ?thesis by (simp add: merge_row_def find_filter)
next
  case (Cons r rs)
  with assms have "rs = []" by (simp add: merge_row_def)
  with Cons show ?thesis by (simp add: merge_row_def find_filter)
qed

lemma left_merge_length: "length left \<le> length (left_merge on left right)"
proof (induction left)
  case Nil
  then show ?case by (simp add: left_merge_Nil)
next
  case (Cons l left)
  with merge_row_length [of on right l] show ?case by (simp add: left_merge_Cons)
qed

lemma left_merge_exact:
  "length (left_merge on left right) = length left \<Longrightarrow>
   left_merge on left right = map (\<lambda>l. (l, find (on l) right)) left"
proof (induction left)
  case Nil
  then show ?case by (simp add: left_merge_Nil)
next
  case (Cons l left)
  have a: "1 \<le> length (merge_row on right l)" by (rule merge_row_length)
  have b: "length left \<le> length (left_merge on left right)" by (rule left_merge_length)
  from Cons.prems have "length (merge_row on right l) + length (left_merge on left right) = Suc (length left)"
    by (simp add: left_merge_Cons)
  with a b have "length (merge_row on right l) = 1" "length (left_merge on left right) = length left"
    by linarith+
  with Cons.IH merge_row_single show ?case by (simp add: left_merge_Cons)
qed
lemma renamed_row_name:
  "Customer_Name (renamed_row ((a, find (on_branch a) (branch_rows cust_data)),
       find (on_head_office (a, b)) (head_office_rows cust_data)))
   = spec_customer_name cust_data a"
proof -
  have y: "find (on_head_office (a, b)) (head_office_rows cust_data)
      = map_option (\<lambda>c. (cust_head_office c, cust_Customer_Name c))
          (find (\<lambda>c. cust_head_office c = agg_Customer_Number a) cust_data)"
    by (simp add: head_office_rows_def find_drop_duplicates find_map_comp on_head_office_def)
  show ?thesis
    unfolding y
    by (simp add: renamed_row_def spec_customer_name_def branch_name_def head_office_name_def
        aggregated_row.extend_def resolved_row.fields_def Let_def
        split: option.splits)
qed

lemma renamed_row_truncate: "aggregated_row.truncate (renamed_row m) = fst (fst m)"
  by (simp add: renamed_row_def aggregated_row.truncate_def aggregated_row.extend_def Let_def)

lemma assign_customers_cases:
  assumes "compacted \<noteq> []" and "aggregate_data compacted = Inr aggregated"
  shows "assign_customers compacted cust_data =
     (if length (updated_hd_off (updated_cust_num aggregated cust_data) cust_data)
           = length aggregated
      then Inr (map renamed_row
             (updated_hd_off (updated_cust_num aggregated cust_data) cust_data))
      else Inl AssertionError)"
  using assms by (auto simp: assign_customers_def Let_def)

lemma assign_customers_no_bucket:
  assumes "compacted \<noteq> []" and "aggregate_data compacted = Inl e"
  shows "assign_customers compacted cust_data = Inl e"
  using assms by (simp add: assign_customers_def)

lemma assign_customers_returns:
  assumes "assign_customers compacted cust_data = Inr renamed"
  shows "compacted \<noteq> [] \<and> (\<exists>aggregated. aggregate_data compacted = Inr aggregated)"
proof (cases "aggregate_data compacted")
  case (Inl e)
  with assms show ?thesis by (auto simp: assign_customers_def split: if_splits)
next
  case (Inr aggregated)
  with assms show ?thesis by (auto simp: assign_customers_def split: if_splits)
qed

lemma merges_exact:
  assumes "length (updated_hd_off (updated_cust_num aggregated cust_data) cust_data)
             = length aggregated"
  shows "updated_hd_off (updated_cust_num aggregated cust_data) cust_data
       = map (\<lambda>a. ((a, find (on_branch a) (branch_rows cust_data)),
                    find (on_head_office (a, find (on_branch a) (branch_rows cust_data)))
                      (head_office_rows cust_data))) aggregated"
proof -
  let ?p1 = "updated_cust_num aggregated cust_data"
  let ?p2 = "updated_hd_off ?p1 cust_data"
  have a: "length aggregated \<le> length ?p1"
    unfolding updated_cust_num_def by (rule left_merge_length)
  have b: "length ?p1 \<le> length ?p2"
    unfolding updated_hd_off_def by (rule left_merge_length)
  from a b assms have l1: "length ?p1 = length aggregated" and l2: "length ?p2 = length ?p1"
    by linarith+
  have p1: "?p1 = map (\<lambda>a. (a, find (on_branch a) (branch_rows cust_data))) aggregated"
    using l1 unfolding updated_cust_num_def by (rule left_merge_exact)
  have "?p2 = map (\<lambda>l. (l, find (on_head_office l) (head_office_rows cust_data))) ?p1"
    using l2 unfolding updated_hd_off_def by (rule left_merge_exact)
  then show ?thesis by (simp add: p1 comp_def)
qed

text \<open>
  C9. When \<open>assign_customers\<close> returns a table, its rows are the aggregated rows in their
  order, and the \<open>Customer_Name\<close> of each is the branch-level name when the master has
  one, otherwise the head-office name, otherwise absent.
\<close>

theorem assign_customers_merge_policy:
  assumes "assign_customers compacted cust_data = Inr renamed"
  shows "aggregate_data compacted = Inr (map aggregated_row.truncate renamed)
       \<and> map Customer_Name renamed
           = map (spec_customer_name cust_data) (map aggregated_row.truncate renamed)"
proof -
  from assign_customers_returns [OF assms] obtain aggregated
    where ne: "compacted \<noteq> []" and agg: "aggregate_data compacted = Inr aggregated"
    by auto
  let ?p2 = "updated_hd_off (updated_cust_num aggregated cust_data) cust_data"
  from assms assign_customers_cases [OF ne agg, of cust_data]
  have len: "length ?p2 = length aggregated" and r: "renamed = map renamed_row ?p2"
    by (auto split: if_splits)
  note ex = merges_exact [OF len]
  have t: "map aggregated_row.truncate renamed = aggregated"
    unfolding r ex by (simp add: comp_def renamed_row_truncate)
  have "map Customer_Name renamed = map (spec_customer_name cust_data) aggregated"
    unfolding r ex by (simp add: comp_def renamed_row_name)
  with t agg show ?thesis by simp
qed

text \<open>
  The outcomes of \<open>assign_customers\<close> on a table with rows of which one at least has a
  bucket: neither merge drops a row, and the function returns a table with as many rows
  as the aggregated table or fails its assertion, the merges having added rows.
\<close>

lemma assign_customers_outcomes:
  assumes "compacted \<noteq> []" and "aggregate_data compacted = Inr aggregated"
  shows "length aggregated \<le> length (updated_cust_num aggregated cust_data)
       \<and> length (updated_cust_num aggregated cust_data)
           \<le> length (updated_hd_off (updated_cust_num aggregated cust_data) cust_data)
       \<and> (case assign_customers compacted cust_data of
             Inr renamed \<Rightarrow> length renamed = length aggregated
           | Inl e \<Rightarrow> e = AssertionError
               \<and> length aggregated
                   < length (updated_hd_off (updated_cust_num aggregated cust_data) cust_data))"
proof -
  let ?p1 = "updated_cust_num aggregated cust_data"
  let ?p2 = "updated_hd_off ?p1 cust_data"
  have a: "length aggregated \<le> length ?p1"
    unfolding updated_cust_num_def by (rule left_merge_length)
  have b: "length ?p1 \<le> length ?p2"
    unfolding updated_hd_off_def by (rule left_merge_length)
  from a b show ?thesis
    by (simp add: assign_customers_cases [OF assms])
qed

lemmas merge_eval =
  updated_cust_num_def updated_hd_off_def left_merge_def merge_row_def branch_rows_def
  head_office_rows_def drop_duplicates_def on_branch_def on_head_office_def
  example_customer_def example_aggregated_def

lemma assign_branch_and_head_office:
  "assign_customers [example_compacted (Some 7) 20]
     [example_customer 1 (Some 7) ''Branch'' (Some ''0075''),
      example_customer 7 None ''Head'' None]
   = Inr [aggregated_row.extend example_aggregated
            (resolved_row.fields (Some ''Branch'') (Some 7))]"
  by (simp add: assign_customers_def aggregate_one_row merge_eval renamed_row_def)

lemma names_branch_and_head_office:
  "branch_name [example_customer 1 (Some 7) ''Branch'' (Some ''0075''),
      example_customer 7 None ''Head'' None] example_aggregated = Some ''Branch''
   \<and> head_office_name [example_customer 1 (Some 7) ''Branch'' (Some ''0075''),
        example_customer 7 None ''Head'' None] example_aggregated = Some ''Head''"
  by (simp add: branch_name_def head_office_name_def branch_rows_def on_branch_def
      example_customer_def example_aggregated_def)

text \<open>
  A customer number that is a branch number of its company code and also a head office
  with another name: the returned name is the branch-level one.
\<close>

theorem assign_customers_merge_policy_witness:
  "assign_customers [example_compacted (Some 7) 20]
     [example_customer 1 (Some 7) ''Branch'' (Some ''0075''),
      example_customer 7 None ''Head'' None]
     = Inr [aggregated_row.extend example_aggregated
              (resolved_row.fields (Some ''Branch'') (Some 7))]
   \<and> spec_customer_name [example_customer 1 (Some 7) ''Branch'' (Some ''0075''),
        example_customer 7 None ''Head'' None] example_aggregated = Some ''Branch''
   \<and> head_office_name [example_customer 1 (Some 7) ''Branch'' (Some ''0075''),
        example_customer 7 None ''Head'' None] example_aggregated = Some ''Head''"
proof -
  let ?m = "[example_customer 1 (Some 7) ''Branch'' (Some ''0075''),
        example_customer 7 None ''Head'' None]"
  let ?r = "aggregated_row.extend example_aggregated
        (resolved_row.fields (Some ''Branch'') (Some 7))"
  have t: "aggregated_row.truncate ?r = example_aggregated"
    by (simp add: aggregated_row.truncate_def aggregated_row.extend_def example_aggregated_def)
  from assign_customers_merge_policy [OF assign_branch_and_head_office]
  have "map Customer_Name [?r]
      = map (spec_customer_name ?m) (map aggregated_row.truncate [?r])"
    by (rule conjunct2)
  then have "Customer_Name ?r = spec_customer_name ?m example_aggregated"
    by (simp only: list.map t list.inject)
  then have "spec_customer_name ?m example_aggregated = Some ''Branch''"
    by (simp add: aggregated_row.extend_def resolved_row.fields_def)
  with assign_branch_and_head_office names_branch_and_head_office show ?thesis by simp
qed

text \<open>
  C8. The code at an input where it departs from the claim. The master holds two
  branches, 10 and 11, of the head office 7, with the names \<open>A\<close> and \<open>B\<close>; the aggregated
  table has one row, for the customer number 7. The first merge finds no branch and keeps
  the row; the second finds the two pairs of head office 7 and a name and returns two
  rows. The row counts differ and \<open>assign_customers\<close> fails its assertion, where the claim
  has the merges add no row. A table none of whose rows has a bucket does not reach the
  merges.
\<close>

theorem assign_customers_fan_out:
  "aggregate_data [example_compacted (Some 7) 20] = Inr [example_aggregated]
   \<and> length (updated_cust_num [example_aggregated]
       [example_customer 7 (Some 10) ''A'' (Some ''0075''),
        example_customer 7 (Some 11) ''B'' (Some ''0075'')]) = 1
   \<and> length (updated_hd_off
       (updated_cust_num [example_aggregated]
          [example_customer 7 (Some 10) ''A'' (Some ''0075''),
           example_customer 7 (Some 11) ''B'' (Some ''0075'')])
       [example_customer 7 (Some 10) ''A'' (Some ''0075''),
        example_customer 7 (Some 11) ''B'' (Some ''0075'')]) = 2
   \<and> assign_customers [example_compacted (Some 7) 20]
       [example_customer 7 (Some 10) ''A'' (Some ''0075''),
        example_customer 7 (Some 11) ''B'' (Some ''0075'')] = Inl AssertionError
   \<and> assign_customers [example_compacted (Some 7) 0, example_compacted (Some 7) 1000000]
       [example_customer 7 (Some 10) ''A'' (Some ''0075''),
        example_customer 7 (Some 11) ''B'' (Some ''0075'')] = Inl KeyError"
  by (simp add: assign_customers_def aggregate_one_row aggregate_no_bucket merge_eval)

section \<open>Properties of \<open>generate_excel_report\<close>\<close>

lemma blank_processed_update:
  "blank_processed r = r\<lparr>agg_Customer_Number :=
     if agg_Customer_Number r = Some 0 then None else agg_Customer_Number r\<rparr>"
  by (simp add: blank_processed_def)

lemma blank_exported_update:
  "blank_exported r = r\<lparr>Customer_Number :=
     if Customer_Number r = Some 0 then None else Customer_Number r\<rparr>"
  by (simp add: blank_exported_def)

lemma blank_processed_nonzero: "agg_Customer_Number (blank_processed r) \<noteq> Some 0"
  by (simp add: blank_processed_def)

lemma blank_exported_nonzero: "Customer_Number (blank_exported r) \<noteq> Some 0"
  by (simp add: blank_exported_def)

text \<open>
  C10, as amended. When both tables have rows, \<open>generate_excel_report\<close> leaves the
  caller's tables without a customer number 0, whatever the writing does afterwards: each
  row is the row it was with \<open>Customer_Number\<close> absent where it was 0, so the other
  columns and the number of rows are unchanged. When one of the tables has no rows, the
  function raises \<open>ValueError\<close> and leaves both tables as they were.
\<close>

theorem generate_excel_report_blanks_zero:
  "(processed st \<noteq> [] \<and> exported st \<noteq> [] \<longrightarrow>
      Some 0 \<notin> set (map agg_Customer_Number (processed (snd (generate_excel_report write st))))
      \<and> Some 0 \<notin> set (map Customer_Number (exported (snd (generate_excel_report write st))))
      \<and> processed (snd (generate_excel_report write st))
          = map (\<lambda>r. r\<lparr>agg_Customer_Number :=
                if agg_Customer_Number r = Some 0 then None else agg_Customer_Number r\<rparr>)
              (processed st)
      \<and> exported (snd (generate_excel_report write st))
          = map (\<lambda>r. r\<lparr>Customer_Number :=
                if Customer_Number r = Some 0 then None else Customer_Number r\<rparr>)
              (exported st))
   \<and> (processed st = [] \<or> exported st = [] \<longrightarrow>
        generate_excel_report write st = (Inl ValueError, st))"
proof (intro conjI impI)
  assume ne: "processed st \<noteq> [] \<and> exported st \<noteq> []"
  have st: "snd (generate_excel_report write st)
      = \<lparr>processed = map blank_processed (processed st),
         exported = map blank_exported (exported st)\<rparr>"
    using ne by (simp add: generate_excel_report_def Let_def)
  show "Some 0 \<notin> set (map agg_Customer_Number
      (processed (snd (generate_excel_report write st))))"
    unfolding st using blank_processed_nonzero by (fastforce simp: image_iff)
  show "Some 0 \<notin> set (map Customer_Number
      (exported (snd (generate_excel_report write st))))"
    unfolding st using blank_exported_nonzero by (fastforce simp: image_iff)
  have "map blank_processed (processed st)
      = map (\<lambda>r. r\<lparr>agg_Customer_Number :=
              if agg_Customer_Number r = Some 0 then None else agg_Customer_Number r\<rparr>)
          (processed st)"
    by (rule map_cong [OF refl]) (rule blank_processed_update)
  then show "processed (snd (generate_excel_report write st))
      = map (\<lambda>r. r\<lparr>agg_Customer_Number :=
              if agg_Customer_Number r = Some 0 then None else agg_Customer_Number r\<rparr>)
          (processed st)"
    unfolding st by simp
  have "map blank_exported (exported st)
      = map (\<lambda>r. r\<lparr>Customer_Number :=
              if Customer_Number r = Some 0 then None else Customer_Number r\<rparr>)
          (exported st)"
    by (rule map_cong [OF refl]) (rule blank_exported_update)
  then show "exported (snd (generate_excel_report write st))
      = map (\<lambda>r. r\<lparr>Customer_Number :=
              if Customer_Number r = Some 0 then None else Customer_Number r\<rparr>)
          (exported st)"
    unfolding st by simp
next
  assume "processed st = [] \<or> exported st = []"
  then show "generate_excel_report write st = (Inl ValueError, st)"
    by (auto simp: generate_excel_report_def)
qed

theorem generate_excel_report_blanks_zero_witness:
  "processed example_tables \<noteq> [] \<and> exported example_tables \<noteq> []
   \<and> map agg_Customer_Number
       (processed (snd (generate_excel_report (\<lambda>st. Inr ''report.xlsm'') example_tables)))
       = [None, Some 7]
   \<and> map Customer_Number
       (exported (snd (generate_excel_report (\<lambda>st. Inr ''report.xlsm'') example_tables)))
       = [None, None]"
proof -
  have h: "processed example_tables \<noteq> [] \<and> exported example_tables \<noteq> []"
    by (simp add: example_tables_def)
  from generate_excel_report_blanks_zero [of example_tables "\<lambda>st. Inr ''report.xlsm''"] h
  show ?thesis
    by (simp add: example_tables_def example_resolved_def example_compacted_def)
qed

text \<open>
  C10, as stated, fails where the processed table has no rows: the function raises
  before it touches the tables, and the customer number 0 of the exported table is still
  there after the call.
\<close>

theorem generate_excel_report_guard_keeps_zero:
  "generate_excel_report (\<lambda>st. Inr ''report.xlsm'')
     \<lparr>processed = [], exported = [example_compacted (Some 0) 20]\<rparr>
     = (Inl ValueError, \<lparr>processed = [], exported = [example_compacted (Some 0) 20]\<rparr>)
   \<and> Some 0 \<in> set (map Customer_Number
        (exported (snd (generate_excel_report (\<lambda>st. Inr ''report.xlsm'')
           \<lparr>processed = [], exported = [example_compacted (Some 0) 20]\<rparr>))))"
  by (simp add: generate_excel_report_def example_compacted_def)

end
